theory Spec2Isabelle
  imports Main
begin

section \<open>JavaScript strings and the two regular expressions of the script\<close>

text \<open>
  A JavaScript string is modelled as a \<^typ>\<open>string\<close>: one \<^typ>\<open>char\<close> per code unit, which
  covers the code units up to 255. \<open>length\<close> is the string's \<open>.length\<close>.
\<close>

definition toLowerAscii :: "char \<Rightarrow> char" where
  "toLowerAscii c =
     (case map_of (zip ''ABCDEFGHIJKLMNOPQRSTUVWXYZ'' ''abcdefghijklmnopqrstuvwxyz'') c of
        None \<Rightarrow> c
      | Some l \<Rightarrow> l)"

text \<open>
  \<open>endsWithIgnoreCase w s\<close>: the lower-case word \<open>w\<close> matches at the end of \<open>s\<close> under the
  \<open>i\<close> flag. The pattern's letters are ASCII, and the \<open>i\<close> flag never folds a code unit
  above 127 onto an ASCII one, so comparing after ASCII lower-casing is exact.
\<close>

definition endsWithIgnoreCase :: "string \<Rightarrow> string \<Rightarrow> bool" where
  "endsWithIgnoreCase w s =
     (length w \<le> length s \<and> map toLowerAscii (drop (length s - length w) s) = w)"

text \<open>
  \<^verbatim>\<open>const supportedFileExtensions = /(gif|jpe?g|tiff|png|pdf)$/i;\<close>
  The function is the regular expression's \<open>.test\<close> on a string: the pattern is anchored
  at the end of the input only, so it looks at nothing but the last characters.
\<close>

definition supportedFileExtensions :: "string \<Rightarrow> bool" where
  "supportedFileExtensions s =
     list_ex (\<lambda>w. endsWithIgnoreCase w s) [''gif'', ''jpg'', ''jpeg'', ''tiff'', ''png'', ''pdf'']"

text \<open>
  The atom \<open>.\<close> of a regular expression without the \<open>s\<close> flag matches every code unit but
  the line terminators; of those, line feed and carriage return are below 256.
\<close>

definition regexDot :: "char \<Rightarrow> bool" where
  "regexDot c = (c \<noteq> CHR 0x0A \<and> c \<noteq> CHR 0x0D)"

text \<open>\<open>String.prototype.split\<close> with a one-character separator.\<close>

fun jsSplit :: "char \<Rightarrow> string \<Rightarrow> string list" where
  "jsSplit sep [] = [[]]"
| "jsSplit sep (c # cs) =
     (if c = sep then [] # jsSplit sep cs
      else (case jsSplit sep cs of
              [] \<Rightarrow> [[c]]
            | w # ws \<Rightarrow> (c # w) # ws))"

text \<open>\<open>Array.prototype.join\<close> with a one-character separator.\<close>

fun jsJoin :: "char \<Rightarrow> string list \<Rightarrow> string" where
  "jsJoin sep [] = []"
| "jsJoin sep [w] = w"
| "jsJoin sep (w # v # ws) = w @ sep # jsJoin sep (v # ws)"

text \<open>Reading an array at an index: \<open>undefined\<close> (here \<open>None\<close>) out of range.\<close>

definition jsIndex :: "'a list \<Rightarrow> nat \<Rightarrow> 'a option" where
  "jsIndex xs i = (if i < length xs then Some (xs ! i) else None)"

text \<open>\<open>String(x)\<close> for a value that is a string or \<open>undefined\<close>.\<close>

definition jsToString :: "string option \<Rightarrow> string" where
  "jsToString x = (case x of None \<Rightarrow> ''undefined'' | Some s \<Rightarrow> s)"

section \<open>Node's \<open>path\<close> module on POSIX\<close>

text \<open>
  The script calls \<open>path.resolve\<close>, \<open>path.join\<close> and \<open>path.extname\<close> of Node's standard
  library. They are not part of the repository; the definitions below follow the
  library's POSIX implementation (\<open>lib/path.js\<close>): \<open>normalizeString\<close> walks the segments
  between slashes, drops empty segments and \<open>.\<close>, and lets \<open>..\<close> remove the segment before
  it.
\<close>

definition isAbsolutePath :: "string \<Rightarrow> bool" where
  "isAbsolutePath p = (case p of [] \<Rightarrow> False | c # _ \<Rightarrow> c = CHR ''/'')"

fun normalizeSegments :: "bool \<Rightarrow> string list \<Rightarrow> string list \<Rightarrow> string list" where
  "normalizeSegments allowAboveRoot res [] = rev res"
| "normalizeSegments allowAboveRoot res (s # ss) =
     (if s = [] \<or> s = ''.'' then normalizeSegments allowAboveRoot res ss
      else if s = ''..'' then
        (case res of
           [] \<Rightarrow> normalizeSegments allowAboveRoot (if allowAboveRoot then [''..''] else []) ss
         | t # ts \<Rightarrow>
             if t = ''..''
             then normalizeSegments allowAboveRoot (if allowAboveRoot then ''..'' # res else res) ss
             else normalizeSegments allowAboveRoot ts ss)
      else normalizeSegments allowAboveRoot (s # res) ss)"

definition normalizeString :: "string \<Rightarrow> bool \<Rightarrow> string" where
  "normalizeString p allowAboveRoot =
     jsJoin (CHR ''/'') (normalizeSegments allowAboveRoot [] (jsSplit (CHR ''/'') p))"

definition pathNormalize :: "string \<Rightarrow> string" where
  "pathNormalize p =
     (if p = [] then ''.''
      else
        let isAbsolute = isAbsolutePath p;
            trailingSeparator = (last p = CHR ''/'');
            q = normalizeString p (\<not> isAbsolute)
        in if q = [] then (if isAbsolute then ''/'' else if trailingSeparator then ''./'' else ''.'')
           else (if isAbsolute then ''/'' else []) @ q @ (if trailingSeparator then ''/'' else []))"

text \<open>\<open>path.join(...args)\<close>: the non-empty arguments joined by a slash, then normalised.\<close>

definition pathJoin :: "string list \<Rightarrow> string" where
  "pathJoin args =
     (case filter (\<lambda>a. a \<noteq> []) args of
        [] \<Rightarrow> ''.''
      | a # as \<Rightarrow> pathNormalize (jsJoin (CHR ''/'') (a # as)))"

text \<open>
  \<open>path.resolve(...args)\<close>: the arguments are read from the right until an absolute one
  is met; when none is, the process's working directory \<open>cwd\<close> comes last.
\<close>

fun resolveLoop :: "string list \<Rightarrow> string \<times> bool \<Rightarrow> string \<times> bool" where
  "resolveLoop [] acc = acc"
| "resolveLoop (p # ps) (resolvedPath, resolvedAbsolute) =
     (if resolvedAbsolute then (resolvedPath, resolvedAbsolute)
      else if p = [] then resolveLoop ps (resolvedPath, resolvedAbsolute)
      else resolveLoop ps (p @ ''/'' @ resolvedPath, isAbsolutePath p))"

definition pathResolve :: "string \<Rightarrow> string list \<Rightarrow> string" where
  "pathResolve cwd args =
     (case resolveLoop (rev args @ [cwd]) ([], False) of
        (resolvedPath, resolvedAbsolute) \<Rightarrow>
          let q = normalizeString resolvedPath (\<not> resolvedAbsolute)
          in if resolvedAbsolute then CHR ''/'' # q
             else if q \<noteq> [] then q else ''.'')"

text \<open>
  \<open>path.extname(p)\<close>: trailing slashes are ignored; in the last segment, the text from
  the last dot on, and the empty string when there is no dot, when the last dot is the
  segment's first character, or when the segment is \<open>..\<close>.
\<close>

definition lastSegment :: "string \<Rightarrow> string" where
  "lastSegment p =
     rev (takeWhile (\<lambda>c. c \<noteq> CHR ''/'') (dropWhile (\<lambda>c. c = CHR ''/'') (rev p)))"

definition pathExtname :: "string \<Rightarrow> string" where
  "pathExtname p =
     (let b = lastSegment p;
          afterDot = rev (takeWhile (\<lambda>c. c \<noteq> CHR ''.'') (rev b))
      in if CHR ''.'' \<notin> set b then []
         else if length b = length afterDot + 1 then []
         else if b = ''..'' then []
         else CHR ''.'' # afterDot)"

section \<open>The helpers of \<open>hyperverge.js\<close>\<close>

text \<open>
  \<^verbatim>\<open>
  function normalisePath(filePath) {
      if (/^\//.test(filePath)) { return filePath; }
      return path.resolve(process.cwd(), filePath);
  }\<close>
  \<open>cwd\<close> is the value of \<open>process.cwd()\<close>.
\<close>

definition normalisePath :: "string \<Rightarrow> string \<Rightarrow> string" where
  "normalisePath cwd filePath =
     (if isAbsolutePath filePath then filePath else pathResolve cwd [cwd, filePath])"

text \<open>
  \<^verbatim>\<open>
  function mask(str) {
      if (str.length < 6) { return str.replace(/./g, '#'); }
      return str.split('').map((c, idx) => idx < 2 || idx > str.length - 3 ? c : '#').join('');
  }\<close>
\<close>

definition mask :: "string \<Rightarrow> string" where
  "mask str =
     (if length str < 6 then map (\<lambda>c. if regexDot c then CHR ''#'' else c) str
      else map (\<lambda>(c, idx). if idx < 2 \<or> idx > length str - 3 then c else CHR ''#'')
             (zip str [0 ..< length str]))"

text \<open>
  The object the script prints at boot (\<open>JSON.stringify\<close> of it, which is a function of
  these seven values): the two credentials go through \<open>mask\<close>.
\<close>

record config =
  cfg_action :: string
  cfg_file :: string
  cfg_directory :: string
  cfg_output :: string
  cfg_appKey :: string
  cfg_appId :: string
  cfg_host :: string

definition bootConfiguration :: "config \<Rightarrow> (string \<times> string) list" where
  "bootConfiguration c =
     [(''action'', cfg_action c), (''file'', cfg_file c), (''directory'', cfg_directory c),
      (''output'', cfg_output c), (''appKey'', mask (cfg_appKey c)),
      (''appId'', mask (cfg_appId c)), (''host'', cfg_host c)]"

section \<open>The file discoverer\<close>

text \<open>
  The file system under the directory being listed is a tree. \<open>Dangling\<close> is an entry on
  which \<open>fs.statSync\<close> throws (a broken link); \<open>Other\<close> is an entry that is neither a
  regular file nor a directory (\<open>isFile()\<close> is false and \<open>fs.readdirSync\<close> throws).
\<close>

datatype fsnode = File | Dir "(string \<times> fsnode) list" | Other | Dangling

datatype fserror = ENOENT | ENOTDIR

text \<open>
  \<^verbatim>\<open>
  function listFiles(directory) {
      const entryPaths = fs.readdirSync(directory).map(entry => path.join(directory, entry));
      const filePaths = entryPaths.filter(entryPath => fs.statSync(entryPath).isFile());
      const dirPaths = entryPaths.filter(entryPath => !filePaths.includes(entryPath));
      const dirFiles = dirPaths.reduce((prev, curr) => prev.concat(listFiles(curr)), []);
      return [...filePaths, ...dirFiles]
          .filter(path => supportedFileExtensions.test(path))
          .map(path => normalisePath(path));
  }\<close>
  \<open>listFiles cwd directory node\<close> lists the directory whose path is \<open>directory\<close> and whose
  content is \<open>node\<close>. \<open>listDirs\<close> is the \<open>reduce\<close> over \<open>dirPaths\<close>: it walks the entries in
  order, skips those whose path is in \<open>filePaths\<close>, and appends the listing of every other
  one to \<open>prev\<close>. An exception of \<open>fs\<close> ends the listing (\<open>Inl\<close>).
\<close>

fun listFiles :: "string \<Rightarrow> string \<Rightarrow> fsnode \<Rightarrow> fserror + string list"
and listDirs ::
  "string \<Rightarrow> string \<Rightarrow> string list \<Rightarrow> (string \<times> fsnode) list \<Rightarrow> string list
     \<Rightarrow> fserror + string list"
where
  "listFiles cwd directory File = Inl ENOTDIR"
| "listFiles cwd directory Other = Inl ENOTDIR"
| "listFiles cwd directory Dangling = Inl ENOENT"
| "listFiles cwd directory (Dir entries) =
     (if list_ex (\<lambda>(entry, n). n = Dangling) entries then Inl ENOENT
      else
        let filePaths = map (\<lambda>(entry, n). pathJoin [directory, entry])
                          (filter (\<lambda>(entry, n). n = File) entries)
        in case listDirs cwd directory filePaths entries [] of
             Inl e \<Rightarrow> Inl e
           | Inr dirFiles \<Rightarrow>
               Inr (map (normalisePath cwd)
                      (filter supportedFileExtensions (filePaths @ dirFiles))))"
| "listDirs cwd directory filePaths [] prev = Inr prev"
| "listDirs cwd directory filePaths ((entry, n) # rest) prev =
     (if pathJoin [directory, entry] \<in> set filePaths
      then listDirs cwd directory filePaths rest prev
      else case listFiles cwd (pathJoin [directory, entry]) n of
             Inl e \<Rightarrow> Inl e
           | Inr found \<Rightarrow> listDirs cwd directory filePaths rest (prev @ found))"

section \<open>The upload client\<close>

text \<open>The values a response body, or the callback's \<open>err\<close>, can be.\<close>

datatype jsval =
  Undefined | Null | JBool bool | JNum int | JStr string
  | JArr "jsval list" | JObj "(string \<times> jsval) list"

text \<open>What \<open>if (v)\<close> tests.\<close>

fun truthy :: "jsval \<Rightarrow> bool" where
  "truthy Undefined = False"
| "truthy Null = False"
| "truthy (JBool b) = b"
| "truthy (JNum n) = (n \<noteq> 0)"
| "truthy (JStr s) = (s \<noteq> [])"
| "truthy (JArr xs) = True"
| "truthy (JObj kvs) = True"

text \<open>
  Reading one of the properties \<open>status\<close>, \<open>statusCode\<close>, \<open>result\<close> of a value other than
  \<open>undefined\<close> and \<open>null\<close>: an object gives the property's value (the last one, when the
  key is repeated) or \<open>undefined\<close>; strings, numbers, booleans and arrays have none of
  the three.
\<close>

fun getProp :: "jsval \<Rightarrow> string \<Rightarrow> jsval" where
  "getProp (JObj kvs) k = (case map_of (rev kvs) k of None \<Rightarrow> Undefined | Some v \<Rightarrow> v)"
| "getProp v k = Undefined"

record outcome =
  o_action :: string
  o_file :: string
  o_status :: jsval
  o_statusCode :: jsval
  o_result :: jsval
  o_err :: jsval

text \<open>
  How a call of \<open>uploadFile\<close> ends: its promise resolves with an outcome; or
  \<open>handleError\<close> has ended the process (\<open>process.exit(code)\<close>); or the callback of
  \<open>request\<close> has thrown a \<open>TypeError\<close> that nothing catches, and the promise stays pending.
\<close>

datatype 'a completion = Resolved 'a | Exit nat | Uncaught

text \<open>
  \<^verbatim>\<open>function handleError(code, err, ...rest) { ...; process.exit(code); }\<close>
\<close>

definition handleError :: "nat \<Rightarrow> 'a completion" where
  "handleError code = Exit code"

record httpRequest =
  url :: string
  httpMethod :: string
  formField :: string
  formFile :: string
  headers :: "(string \<times> string) list"

text \<open>
  The world outside the process: whether \<open>fs.statSync\<close> of a path returns (or throws),
  and what \<open>request\<close> passes to its callback as \<open>err\<close> and \<open>body\<close>. The library calls the
  callback with \<open>(err)\<close> alone on a transport error, so \<open>body\<close> is \<open>undefined\<close> then, and
  with \<open>(null, response, body)\<close> otherwise.
\<close>

record world =
  statSync :: "string \<Rightarrow> bool"
  request :: "httpRequest \<Rightarrow> jsval \<times> jsval"


text \<open>
  Lines 331 to 355 of \<open>uploadFile\<close>: the extension, the three checks that end the
  process through \<open>handleError\<close>, and the request that is about to be sent.
  \<^verbatim>\<open>
      ext = path.extname(file).split('.')[1];
      if (!supportedFileExtensions.test(ext)) { handleError(104, ...); }
      let formData = {};
      try { fs.statSync(file); formData[ext] = fs.createReadStream(file); }
      catch (e) { handleError(104, e, action, `Failed to read file ${file}`); }
      if (!appId || !appKey) { handleError(105, 'Missing appId or appKey'); }\<close>
\<close>

definition fileExt :: "string \<Rightarrow> string option" where
  "fileExt f = jsIndex (jsSplit (CHR ''.'') (pathExtname f)) 1"

definition prepareUpload :: "config \<Rightarrow> world \<Rightarrow> string \<Rightarrow> string \<Rightarrow> nat + httpRequest" where
  "prepareUpload c w f a =
     (let ext = fileExt f in
      if \<not> supportedFileExtensions (jsToString ext) then Inl 104
      else if \<not> statSync w f then Inl 104
      else if cfg_appId c = [] \<or> cfg_appKey c = [] then Inl 105
      else Inr \<lparr>url = cfg_host c @ a, httpMethod = ''POST'', formField = jsToString ext,
                formFile = f,
                headers = [(''appid'', cfg_appId c), (''appkey'', cfg_appKey c),
                           (''Accept'', ''application/json'')]\<rparr>)"

text \<open>
  The callback of \<open>request\<close>, lines 369 to 379:
  \<^verbatim>\<open>
      function (err, response, body) {
          const {status, statusCode, result} = body;
          return resolve({action, file, status, statusCode, result, err});
      }\<close>
  Destructuring \<open>undefined\<close> or \<open>null\<close> throws a \<open>TypeError\<close>.
\<close>

definition requestCallback :: "string \<Rightarrow> string \<Rightarrow> jsval \<times> jsval \<Rightarrow> outcome completion" where
  "requestCallback f a reply =
     (case reply of (err, body) \<Rightarrow>
        if body = Undefined \<or> body = Null then Uncaught
        else Resolved \<lparr>o_action = a, o_file = f, o_status = getProp body ''status'',
                       o_statusCode = getProp body ''statusCode'',
                       o_result = getProp body ''result'', o_err = err\<rparr>)"

definition uploadFile :: "config \<Rightarrow> world \<Rightarrow> string \<Rightarrow> string \<Rightarrow> outcome completion" where
  "uploadFile c w f a =
     (case prepareUpload c w f a of
        Inl code \<Rightarrow> handleError code
      | Inr req \<Rightarrow> requestCallback f a (request w req))"

section \<open>The batch orchestrator\<close>

text \<open>
  The two lists of the directory branch, the values handed to \<open>writeResults\<close>, and the
  lines the branch prints, each tagged with the position \<open>idx\<close> of its file in the list.
\<close>

record batchResult =
  br_errors :: "outcome list"
  br_results :: "outcome list"

datatype event = Running nat string | Failed nat string | Success nat string

record batch =
  results :: "outcome list"
  errors :: "outcome list"
  written :: "batchResult list"
  console :: "event list"

datatype ending = Completed | Exited nat | Crashed

text \<open>
  The \<open>then\<close> callback of one upload, lines 273 to 294: the outcome goes to \<open>errors\<close> or
  to \<open>results\<close>, and when the two lists together are as long as \<open>files\<close>, the batch
  result is written.
\<close>

definition onResolved :: "nat \<Rightarrow> nat \<Rightarrow> string \<Rightarrow> outcome \<Rightarrow> batch \<Rightarrow> batch" where
  "onResolved n idx f d b =
     (let b1 = (if truthy (o_err d)
                then b\<lparr>console := console b @ [Failed idx f], errors := errors b @ [d]\<rparr>
                else b\<lparr>console := console b @ [Success idx f], results := results b @ [d]\<rparr>)
      in if length (errors b1) + length (results b1) = n
         then b1\<lparr>written := written b1 @ [\<lparr>br_errors = errors b1, br_results = results b1\<rparr>]\<rparr>
         else b1)"

text \<open>
  The promise chain built by \<open>files.reduce\<close>, lines 267 to 296: each link starts its
  upload when the link before it has resolved. \<open>n\<close> is \<open>files.length\<close>, \<open>idx\<close> the position
  of the next file. An upload that ends the process, or whose promise never resolves,
  ends the chain.
\<close>

fun chain :: "config \<Rightarrow> world \<Rightarrow> string \<Rightarrow> nat \<Rightarrow> nat \<Rightarrow> string list \<Rightarrow> batch \<Rightarrow> ending \<times> batch" where
  "chain c w a n idx [] b = (Completed, b)"
| "chain c w a n idx (f # fs) b =
     (case uploadFile c w f a of
        Resolved d \<Rightarrow>
          chain c w a n (Suc idx) fs (onResolved n idx f d (b\<lparr>console := console b @ [Running idx f]\<rparr>))
      | Exit code \<Rightarrow> (Exited code, b\<lparr>console := console b @ [Running idx f]\<rparr>)
      | Uncaught \<Rightarrow> (Crashed, b\<lparr>console := console b @ [Running idx f]\<rparr>))"

definition emptyBatch :: batch where
  "emptyBatch = \<lparr>results = [], errors = [], written = [], console = []\<rparr>"

definition runBatch :: "config \<Rightarrow> world \<Rightarrow> string \<Rightarrow> string list \<Rightarrow> ending \<times> batch" where
  "runBatch c w a files = chain c w a (length files) 0 files emptyBatch"

text \<open>
  The directory branch, lines 255 to 301: an exception of \<open>listFiles\<close> is caught and goes
  to \<open>handleError(104, ...)\<close>; otherwise the chain runs over the files found.
\<close>

definition directoryMode ::
  "config \<Rightarrow> world \<Rightarrow> string \<Rightarrow> string \<Rightarrow> fsnode \<Rightarrow> ending \<times> batch" where
  "directoryMode c w cwd a tree =
     (case listFiles cwd (cfg_directory c) tree of
        Inl e \<Rightarrow> (Exited 104, emptyBatch)
      | Inr files \<Rightarrow> runBatch c w a files)"

section \<open>What the orchestrator's run is compared with\<close>

text \<open>The outcome an upload resolves with, when it does.\<close>

definition resolvedOutcome :: "config \<Rightarrow> world \<Rightarrow> string \<Rightarrow> string \<Rightarrow> outcome option" where
  "resolvedOutcome c w a f = (case uploadFile c w f a of Resolved d \<Rightarrow> Some d | _ \<Rightarrow> None)"

definition resolves :: "config \<Rightarrow> world \<Rightarrow> string \<Rightarrow> string \<Rightarrow> bool" where
  "resolves c w a f = (resolvedOutcome c w a f \<noteq> None)"

text \<open>The files whose upload was started, read off the printed lines.\<close>

fun started :: "event list \<Rightarrow> string list" where
  "started [] = []"
| "started (Running idx f # es) = f # started es"
| "started (e # es) = started es"

section \<open>Concrete inputs\<close>

definition exampleConfig :: config where
  "exampleConfig =
     \<lparr>cfg_action = ''readKYC'', cfg_file = [], cfg_directory = ''/d'', cfg_output = [],
      cfg_appKey = ''key123'', cfg_appId = ''id4567'',
      cfg_host = ''https://ind-docs.hyperverge.co/v2.0/''\<rparr>"

text \<open>
  A world in which \<open>fs.statSync\<close> throws on \<open>/d/gone.png\<close> (the file is no longer there);
  the connection drops while \<open>/d/down.png\<close> is uploaded (\<open>request\<close> calls back with the
  error alone); the upload of \<open>/d/gateway.png\<close> is answered by a proxy's HTML page; that of
  \<open>/d/blurred.png\<close> by the service's JSON refusal; and every other upload succeeds, but
  for \<open>/d/late.png\<close>, whose callback gets both an error and a body: a reply the library
  does not give, kept to run the \<open>errors\<close> branch of the batch.
\<close>

definition exampleWorld :: world where
  "exampleWorld =
     \<lparr>statSync = (\<lambda>p. p \<noteq> ''/d/gone.png''),
      request = (\<lambda>r.
        if formFile r = ''/d/down.png'' then (JObj [(''code'', JStr ''ECONNRESET'')], Undefined)
        else if formFile r = ''/d/gateway.png'' then (Null, JStr ''<html>502</html>'')
        else if formFile r = ''/d/blurred.png''
          then (Null, JObj [(''status'', JStr ''failure''), (''statusCode'', JStr ''422'')])
        else if formFile r = ''/d/late.png''
          then (JObj [(''code'', JStr ''ETIMEDOUT'')], JObj [])
        else (Null, JObj [(''status'', JStr ''success''), (''statusCode'', JStr ''200''),
                          (''result'', JArr [])]))\<rparr>"

section \<open>Properties of \<open>normalisePath\<close>\<close>

lemma resolveLoop_abs:
  "isAbsolutePath cwd \<Longrightarrow> snd (resolveLoop [p, cwd, cwd] ([], False)) = True"
  by (cases cwd) (auto simp: isAbsolutePath_def)

lemma pathResolve_absolute:
  "isAbsolutePath cwd \<Longrightarrow> isAbsolutePath (pathResolve cwd [cwd, p])"
  using resolveLoop_abs[of cwd p]
  by (auto simp: pathResolve_def isAbsolutePath_def Let_def split: prod.splits)

text \<open>
  Claim C9. \<open>normalisePath\<close> returns a path that begins with a slash unchanged and resolves
  every other path against the working directory; the working directory of a process
  being absolute, the result always begins with a slash, so normalising a second time
  changes nothing.
\<close>

theorem normalisePath_idempotent:
  "isAbsolutePath cwd \<Longrightarrow>
     (isAbsolutePath p \<longrightarrow> normalisePath cwd p = p) \<and>
     (\<not> isAbsolutePath p \<longrightarrow> normalisePath cwd p = pathResolve cwd [cwd, p]) \<and>
     normalisePath cwd (normalisePath cwd p) = normalisePath cwd p"
  by (simp add: normalisePath_def pathResolve_absolute)

text \<open>The theorem at the working directory \<open>/home/u\<close>, on an absolute and on a relative path.\<close>

theorem normalisePath_idempotent_witness:
  "isAbsolutePath ''/home/u'' \<and>
   normalisePath ''/home/u'' ''/etc/../tmp'' = ''/etc/../tmp'' \<and>
   normalisePath ''/home/u'' ''pics/./a.png'' = ''/home/u/pics/a.png'' \<and>
   normalisePath ''/home/u'' (normalisePath ''/home/u'' ''pics/./a.png'') = ''/home/u/pics/a.png''"
proof -
  have h: "isAbsolutePath ''/home/u''" by (simp add: isAbsolutePath_def)
  have r: "pathResolve ''/home/u'' [''/home/u'', ''pics/./a.png''] = ''/home/u/pics/a.png''"
    by (simp add: pathResolve_def normalizeString_def isAbsolutePath_def)
  have a: "isAbsolutePath ''/etc/../tmp''" and b: "\<not> isAbsolutePath ''pics/./a.png''"
    by (simp_all add: isAbsolutePath_def)
  note t = normalisePath_idempotent [OF h, of "''/etc/../tmp''"]
  note u = normalisePath_idempotent [OF h, of "''pics/./a.png''"]
  have 1: "normalisePath ''/home/u'' ''/etc/../tmp'' = ''/etc/../tmp''"
    using t a by blast
  have 2: "normalisePath ''/home/u'' ''pics/./a.png'' = ''/home/u/pics/a.png''"
    using u b r by metis
  have 3: "normalisePath ''/home/u'' (normalisePath ''/home/u'' ''pics/./a.png'') =
           ''/home/u/pics/a.png''"
    using u 2 by metis
  show ?thesis using h 1 2 3 by blast
qed

section \<open>Properties of \<open>mask\<close>\<close>

text \<open>
  On a string of six or more characters \<open>mask\<close> keeps the first two and the last two
  characters and writes \<open>#\<close> over the rest; so two credentials of the same length that
  agree on those four characters are printed alike at boot.
\<close>

lemma mask_nth:
  "6 \<le> length s \<Longrightarrow> i < length s \<Longrightarrow>
     mask s ! i = (if i < 2 \<or> i > length s - 3 then s ! i else CHR ''#'')"
  by (simp add: mask_def)

lemma mask_long:
  "6 \<le> length s \<Longrightarrow>
     mask s = take 2 s @ replicate (length s - 4) (CHR ''#'') @ drop (length s - 2) s"
proof (rule nth_equalityI)
  assume len: "6 \<le> length s"
  show "length (mask s) = length (take 2 s @ replicate (length s - 4) (CHR ''#'') @ drop (length s - 2) s)"
    using len by (simp add: mask_def)
  fix i assume "i < length (mask s)"
  then have i: "i < length s" using len by (simp add: mask_def)
  consider "i < 2" | "2 \<le> i" "i \<le> length s - 3" | "length s - 3 < i" by linarith
  then show "mask s ! i = (take 2 s @ replicate (length s - 4) (CHR ''#'') @ drop (length s - 2) s) ! i"
  proof cases
    case 1
    then show ?thesis using len i by (simp add: mask_nth nth_append)
  next
    case 2
    then have "i - 2 < length s - 4" using len by linarith
    with 2 show ?thesis using len i by (simp add: mask_nth nth_append)
  next
    case 3
    then have a: "\<not> i < 2" "\<not> i - 2 < length s - 4" using len by linarith+
    have b: "length s - 2 + (i - 2 - (length s - 4)) = i" using 3 len by linarith
    show ?thesis using len i 3 a b by (simp add: mask_nth nth_append)
  qed
qed

lemma mask_hides_middle:
  assumes "length s = length t" and "6 \<le> length s"
    and "take 2 s = take 2 t" and "drop (length s - 2) s = drop (length t - 2) t"
  shows "mask s = mask t"
  using assms by (simp add: mask_long)

lemma bootConfiguration_hides_middle:
  assumes "length (cfg_appKey c) = length k" and "6 \<le> length k"
    and "take 2 (cfg_appKey c) = take 2 k"
    and "drop (length k - 2) (cfg_appKey c) = drop (length k - 2) k"
  shows "bootConfiguration (c\<lparr>cfg_appKey := k\<rparr>) = bootConfiguration c"
  using assms mask_hides_middle [of "cfg_appKey c" k] by (simp add: bootConfiguration_def)

text \<open>
  On a shorter string without a line terminator every character becomes \<open>#\<close>.
\<close>

lemma mask_short:
  "length s < 6 \<Longrightarrow> list_all regexDot s \<Longrightarrow> mask s = replicate (length s) (CHR ''#'')"
  by (induction s) (auto simp: mask_def)

text \<open>
  Claim C10 says that \<open>mask\<close> replaces every character of a string shorter than six
  characters by \<open>#\<close>. The replacement is \<open>str.replace(/./g, '#')\<close>, and \<open>.\<close> does not match
  a line terminator: in the five-character credential below the line feed in the middle
  is printed as it is.
\<close>

theorem mask_keeps_line_feed:
  "mask [CHR ''k'', CHR ''e'', CHR 0x0A, CHR ''y'', CHR ''1''] =
     [CHR ''#'', CHR ''#'', CHR 0x0A, CHR ''#'', CHR ''#'']"
  by (simp add: mask_def regexDot_def)

section \<open>Properties of the file discoverer\<close>

lemmas path_defs =
  pathJoin_def pathNormalize_def normalizeString_def isAbsolutePath_def normalisePath_def

lemmas example_defs =
  uploadFile_def prepareUpload_def fileExt_def pathExtname_def lastSegment_def jsIndex_def
  jsToString_def supportedFileExtensions_def endsWithIgnoreCase_def toLowerAscii_def
  exampleConfig_def exampleWorld_def requestCallback_def handleError_def Let_def

text \<open>
  What the discoverer does guarantee: listing a directory given by an absolute path
  returns absolute paths only, and each of them ends, ignoring case, in one of the six
  words of the regular expression.
\<close>

lemma pathNormalize_absolute: "isAbsolutePath p \<Longrightarrow> isAbsolutePath (pathNormalize p)"
  by (cases p) (auto simp: pathNormalize_def isAbsolutePath_def Let_def)

lemma pathJoin_absolute: "isAbsolutePath d \<Longrightarrow> isAbsolutePath (pathJoin [d, e])"
proof -
  assume a: "isAbsolutePath d"
  then have d: "d \<noteq> []" by (auto simp: isAbsolutePath_def)
  have j: "isAbsolutePath (jsJoin (CHR ''/'') (d # xs))" for xs
    using a by (cases xs; cases d) (auto simp: isAbsolutePath_def)
  show ?thesis
    using d j [of "[e]"] j [of "[]"] by (cases "e = []") (auto simp: pathJoin_def intro: pathNormalize_absolute)
qed

lemma normalisePath_absolute_id: "isAbsolutePath p \<Longrightarrow> normalisePath cwd p = p"
  by (simp add: normalisePath_def)

lemma listFiles_listDirs_found:
  "(isAbsolutePath directory \<longrightarrow>
      (\<forall>ps. listFiles cwd directory node = Inr ps \<longrightarrow>
         list_all (\<lambda>p. supportedFileExtensions p \<and> isAbsolutePath p) ps))"
  "(isAbsolutePath directory \<longrightarrow>
      list_all (\<lambda>p. supportedFileExtensions p \<and> isAbsolutePath p) prev \<longrightarrow>
      (\<forall>ps. listDirs cwd directory filePaths entries prev = Inr ps \<longrightarrow>
         list_all (\<lambda>p. supportedFileExtensions p \<and> isAbsolutePath p) ps))"
proof (induction cwd directory node and cwd directory filePaths entries prev
    rule: listFiles_listDirs.induct)
  case (4 cwd directory entries)
  show ?case
  proof (intro impI allI)
    fix ps
    assume abs: "isAbsolutePath directory"
      and run: "listFiles cwd directory (Dir entries) = Inr ps"
    let ?filePaths = "map (\<lambda>(entry, n). pathJoin [directory, entry])
                          (filter (\<lambda>(entry, n). n = File) entries)"
    from run have nd: "\<not> list_ex (\<lambda>(entry, n). n = Dangling) entries"
      by (auto split: if_splits)
    from run nd obtain dirFiles where
      dl: "listDirs cwd directory ?filePaths entries [] = Inr dirFiles" and
      ps: "ps = map (normalisePath cwd) (filter supportedFileExtensions (?filePaths @ dirFiles))"
      by (auto simp: Let_def split: sum.splits)
    have fa: "list_all isAbsolutePath ?filePaths"
      using abs by (auto simp: list_all_iff pathJoin_absolute)
    have "list_all (\<lambda>p. supportedFileExtensions p \<and> isAbsolutePath p) dirFiles"
      using "4.IH" [OF nd refl] abs dl by simp
    then have da: "list_all isAbsolutePath dirFiles"
      by (auto simp: list_all_iff)
    have "list_all isAbsolutePath (filter supportedFileExtensions (?filePaths @ dirFiles))"
      using fa da by (auto simp: list_all_iff)
    then have "map (normalisePath cwd) (filter supportedFileExtensions (?filePaths @ dirFiles)) =
        filter supportedFileExtensions (?filePaths @ dirFiles)"
      by (induction "filter supportedFileExtensions (?filePaths @ dirFiles)")
         (auto simp: normalisePath_absolute_id list_all_iff intro!: map_idI)
    with ps fa da show "list_all (\<lambda>p. supportedFileExtensions p \<and> isAbsolutePath p) ps"
      by (auto simp: list_all_iff)
  qed
next
  case (6 cwd directory filePaths entry n rest prev)
  show ?case
  proof (intro impI allI)
    fix ps
    assume abs: "isAbsolutePath directory"
      and prev: "list_all (\<lambda>p. supportedFileExtensions p \<and> isAbsolutePath p) prev"
      and run: "listDirs cwd directory filePaths ((entry, n) # rest) prev = Inr ps"
    show "list_all (\<lambda>p. supportedFileExtensions p \<and> isAbsolutePath p) ps"
    proof (cases "pathJoin [directory, entry] \<in> set filePaths")
      case True
      with run have "listDirs cwd directory filePaths rest prev = Inr ps" by simp
      with "6.IH"(1) [OF True] abs prev show ?thesis by simp
    next
      case False
      with run obtain found where
        f: "listFiles cwd (pathJoin [directory, entry]) n = Inr found" and
        r: "listDirs cwd directory filePaths rest (prev @ found) = Inr ps"
        by (auto split: sum.splits)
      have "list_all (\<lambda>p. supportedFileExtensions p \<and> isAbsolutePath p) found"
        using "6.IH"(2) [OF False] pathJoin_absolute [OF abs] f by simp
      with prev have "list_all (\<lambda>p. supportedFileExtensions p \<and> isAbsolutePath p) (prev @ found)"
        by simp
      with "6.IH"(3) [OF False f] abs r show ?thesis by simp
    qed
  qed
qed simp_all

lemma listFiles_found:
  "isAbsolutePath directory \<Longrightarrow> listFiles cwd directory node = Inr ps \<Longrightarrow> p \<in> set ps \<Longrightarrow>
     supportedFileExtensions p \<and> isAbsolutePath p"
  using listFiles_listDirs_found(1) [of directory cwd node] by (auto simp: list_all_iff)

text \<open>
  Claim C6 says that every path returned by \<open>listFiles\<close> has an extension among gif, jpg,
  jpeg, tiff, png and pdf. \<open>listFiles\<close> tests the regular expression on the whole path,
  and the expression asks for no dot: in the directory below, the file \<open>scan_png\<close> has no
  extension and is returned all the same, while \<open>uploadFile\<close>, which tests the extension
  it reads with \<open>path.extname\<close>, ends the process on that very path (exit code 104,
  unsupported file format).
\<close>

theorem listFiles_returns_file_without_extension:
  "listFiles ''/home/u'' ''/d'' (Dir [(''scan_png'', File), (''notes.txt'', File)]) = Inr [''/d/scan_png''] \<and>
   pathExtname ''/d/scan_png'' = [] \<and>
   uploadFile exampleConfig exampleWorld ''/d/scan_png'' ''readKYC'' = Exit 104"
  by (simp add: path_defs example_defs)

section \<open>Properties of the upload client\<close>

lemma jsSplit_no_sep: "sep \<notin> set s \<Longrightarrow> jsSplit sep s = [s]"
  by (induction s) auto

lemma pathExtname_shape:
  "pathExtname f = [] \<or> (\<exists>e. pathExtname f = CHR ''.'' # e \<and> CHR ''.'' \<notin> set e)"
proof -
  have "CHR ''.'' \<notin> set (rev (takeWhile (\<lambda>c. c \<noteq> CHR ''.'') (rev (lastSegment f))))"
    using set_takeWhileD by fastforce
  then show ?thesis
    by (auto simp: pathExtname_def Let_def)
qed

lemma fileExt_eq:
  "fileExt f = (if pathExtname f = [] then None else Some (tl (pathExtname f)))"
  using pathExtname_shape [of f]
  by (auto simp: fileExt_def jsIndex_def jsSplit_no_sep)

lemma undefined_unsupported: "\<not> supportedFileExtensions ''undefined''"
  by (simp add: supportedFileExtensions_def endsWithIgnoreCase_def toLowerAscii_def)

text \<open>
  Claim C8, as amended. Whenever \<open>uploadFile\<close> gets as far as sending a request for a file,
  the form field that carries the file is named by the file's extension with the leading
  dot stripped, written as the file name has it: the extension is a supported one only up
  to case, and it is not lower-cased.
\<close>

theorem formField_is_extension:
  "prepareUpload c w f a = Inr req \<Longrightarrow>
     pathExtname f = CHR ''.'' # formField req \<and> formFile req = f \<and>
     supportedFileExtensions (formField req)"
  using pathExtname_shape [of f] undefined_unsupported
  by (auto simp: prepareUpload_def Let_def fileExt_eq jsToString_def split: if_splits)

text \<open>The theorem on \<open>/d/scan.Jpeg\<close>: the field is named \<open>Jpeg\<close>.\<close>

theorem formField_is_extension_witness:
  "prepareUpload exampleConfig exampleWorld ''/d/scan.Jpeg'' ''readPAN'' =
     Inr \<lparr>url = ''https://ind-docs.hyperverge.co/v2.0/readPAN'', httpMethod = ''POST'',
          formField = ''Jpeg'', formFile = ''/d/scan.Jpeg'',
          headers = [(''appid'', ''id4567''), (''appkey'', ''key123''),
                     (''Accept'', ''application/json'')]\<rparr> \<and>
   pathExtname ''/d/scan.Jpeg'' = ''.Jpeg'' \<and> supportedFileExtensions ''Jpeg''"
proof -
  have p: "prepareUpload exampleConfig exampleWorld ''/d/scan.Jpeg'' ''readPAN'' =
     Inr \<lparr>url = ''https://ind-docs.hyperverge.co/v2.0/readPAN'', httpMethod = ''POST'',
          formField = ''Jpeg'', formFile = ''/d/scan.Jpeg'',
          headers = [(''appid'', ''id4567''), (''appkey'', ''key123''),
                     (''Accept'', ''application/json'')]\<rparr>"
    by (simp add: prepareUpload_def fileExt_def pathExtname_def lastSegment_def jsIndex_def
        jsToString_def supportedFileExtensions_def endsWithIgnoreCase_def toLowerAscii_def
        exampleConfig_def exampleWorld_def)
  show ?thesis using p formField_is_extension [OF p] by simp
qed

text \<open>
  Claim C8 as the specification states it fails: a file ending in \<open>.PNG\<close> yields the form
  field \<open>PNG\<close>, not \<open>png\<close>.
\<close>

theorem formField_not_lowercased:
  "map_sum id formField (prepareUpload exampleConfig exampleWorld ''/d/a.PNG'' ''readKYC'') = Inr ''PNG''
   \<and> ''PNG'' \<noteq> ''png''"
  by (simp add: prepareUpload_def fileExt_def pathExtname_def lastSegment_def jsIndex_def
        jsToString_def supportedFileExtensions_def endsWithIgnoreCase_def toLowerAscii_def
        exampleConfig_def exampleWorld_def)

text \<open>
  Claim C2 says that \<open>uploadFile\<close> resolves on every path, a network error included. On a
  transport error \<open>request\<close> calls back with the error alone; the callback then
  destructures an \<open>undefined\<close> body, throws, and the promise is never resolved.
\<close>

theorem transport_error_never_resolves:
  "request exampleWorld
     \<lparr>url = ''https://ind-docs.hyperverge.co/v2.0/readKYC'', httpMethod = ''POST'',
      formField = ''png'', formFile = ''/d/down.png'',
      headers = [(''appid'', ''id4567''), (''appkey'', ''key123''),
                 (''Accept'', ''application/json'')]\<rparr> =
     (JObj [(''code'', JStr ''ECONNRESET'')], Undefined) \<and>
   uploadFile exampleConfig exampleWorld ''/d/down.png'' ''readKYC'' = Uncaught"
  by (simp add: example_defs)

text \<open>Uploads of the example world, used below.\<close>

lemma upload_a:
  "uploadFile exampleConfig exampleWorld ''/d/a.png'' ''readKYC'' =
     Resolved \<lparr>o_action = ''readKYC'', o_file = ''/d/a.png'', o_status = JStr ''success'',
               o_statusCode = JStr ''200'', o_result = JArr [], o_err = Null\<rparr>"
  by (simp add: example_defs)

lemma upload_late:
  "uploadFile exampleConfig exampleWorld ''/d/late.png'' ''readKYC'' =
     Resolved \<lparr>o_action = ''readKYC'', o_file = ''/d/late.png'', o_status = Undefined,
               o_statusCode = Undefined, o_result = Undefined,
               o_err = JObj [(''code'', JStr ''ETIMEDOUT'')]\<rparr>"
  by (simp add: example_defs)

lemma upload_blurred:
  "uploadFile exampleConfig exampleWorld ''/d/blurred.png'' ''readKYC'' =
     Resolved \<lparr>o_action = ''readKYC'', o_file = ''/d/blurred.png'', o_status = JStr ''failure'',
               o_statusCode = JStr ''422'', o_result = Undefined, o_err = Null\<rparr>"
  by (simp add: example_defs)

lemma upload_gone:
  "uploadFile exampleConfig exampleWorld ''/d/gone.png'' ''readKYC'' = Exit 104"
  by (simp add: example_defs)

lemma onResolved_count:
  "length (errors (onResolved n idx f d b)) + length (results (onResolved n idx f d b)) =
     Suc (length (errors b) + length (results b))"
  by (simp add: onResolved_def Let_def)

lemma onResolved_errors:
  "errors (onResolved n idx f d b) = errors b @ (if truthy (o_err d) then [d] else [])"
  by (simp add: onResolved_def Let_def)

lemma onResolved_results:
  "results (onResolved n idx f d b) = results b @ (if truthy (o_err d) then [] else [d])"
  by (simp add: onResolved_def Let_def)

lemma onResolved_console:
  "console (onResolved n idx f d b) =
     console b @ [if truthy (o_err d) then Failed idx f else Success idx f]"
  by (simp add: onResolved_def Let_def)

lemma onResolved_written:
  "written (onResolved n idx f d b) =
     (if Suc (length (errors b) + length (results b)) = n
      then written b @ [\<lparr>br_errors = errors (onResolved n idx f d b),
                          br_results = results (onResolved n idx f d b)\<rparr>]
      else written b)"
  by (simp add: onResolved_def Let_def)

lemma request_blurred:
  "prepareUpload exampleConfig exampleWorld ''/d/blurred.png'' ''readKYC'' =
     Inr \<lparr>url = ''https://ind-docs.hyperverge.co/v2.0/readKYC'', httpMethod = ''POST'',
          formField = ''png'', formFile = ''/d/blurred.png'',
          headers = [(''appid'', ''id4567''), (''appkey'', ''key123''),
                     (''Accept'', ''application/json'')]\<rparr>"
  by (simp add: example_defs)

lemma reply_blurred:
  "request exampleWorld
     \<lparr>url = ''https://ind-docs.hyperverge.co/v2.0/readKYC'', httpMethod = ''POST'',
      formField = ''png'', formFile = ''/d/blurred.png'',
      headers = [(''appid'', ''id4567''), (''appkey'', ''key123''),
                 (''Accept'', ''application/json'')]\<rparr> =
     (Null, JObj [(''status'', JStr ''failure''), (''statusCode'', JStr ''422'')])"
  by (simp add: exampleWorld_def)




section \<open>Properties of the batch orchestrator\<close>

lemma started_append: "started (xs @ ys) = started xs @ started ys"
  by (induction xs rule: started.induct) auto


lemma chain_written:
  "chain c w a n idx fs b = (e, b') \<Longrightarrow>
   length (errors b) + length (results b) + length fs = n \<Longrightarrow>
     written b' = written b @
       (if e = Completed \<and> fs \<noteq> [] then [\<lparr>br_errors = errors b', br_results = results b'\<rparr>] else [])"
proof (induction fs arbitrary: idx b)
  case Nil
  then show ?case by auto
next
  case (Cons f fs)
  let ?b0 = "b\<lparr>console := console b @ [Running idx f]\<rparr>"
  show ?case
  proof (cases "uploadFile c w f a")
    case (Resolved d)
    let ?b1 = "onResolved n idx f d ?b0"
    from Resolved Cons.prems have run: "chain c w a n (Suc idx) fs ?b1 = (e, b')"
      by simp
    have cnt: "length (errors ?b1) + length (results ?b1) + length fs = n"
      using Cons.prems(2) by (simp add: onResolved_count)
    note ih = Cons.IH [OF run cnt]
    show ?thesis
    proof (cases "fs = []")
      case True
      with run have "e = Completed" "b' = ?b1" by simp_all
      moreover have "Suc (length (errors ?b0) + length (results ?b0)) = n"
        using Cons.prems(2) True by simp
      ultimately show ?thesis
        by (simp add: onResolved_written)
    next
      case False
      then have "Suc (length (errors ?b0) + length (results ?b0)) \<noteq> n"
        using Cons.prems(2) by auto
      then have "written ?b1 = written b"
        by (simp add: onResolved_written)
      with ih False show ?thesis by simp
    qed
  next
    case (Exit code)
    with Cons.prems show ?thesis by auto
  next
    case Uncaught
    with Cons.prems show ?thesis by auto
  qed
qed

lemma run_late_a:
  "runBatch exampleConfig exampleWorld ''readKYC'' [''/d/late.png'', ''/d/a.png''] =
     (Completed,
      \<lparr>results = [\<lparr>o_action = ''readKYC'', o_file = ''/d/a.png'', o_status = JStr ''success'',
                    o_statusCode = JStr ''200'', o_result = JArr [], o_err = Null\<rparr>],
       errors = [\<lparr>o_action = ''readKYC'', o_file = ''/d/late.png'', o_status = Undefined,
                   o_statusCode = Undefined, o_result = Undefined,
                   o_err = JObj [(''code'', JStr ''ETIMEDOUT'')]\<rparr>],
       written = [\<lparr>br_errors = [\<lparr>o_action = ''readKYC'', o_file = ''/d/late.png'',
                     o_status = Undefined, o_statusCode = Undefined, o_result = Undefined,
                     o_err = JObj [(''code'', JStr ''ETIMEDOUT'')]\<rparr>],
                   br_results = [\<lparr>o_action = ''readKYC'', o_file = ''/d/a.png'',
                     o_status = JStr ''success'', o_statusCode = JStr ''200'',
                     o_result = JArr [], o_err = Null\<rparr>]\<rparr>],
       console = [Running 0 ''/d/late.png'', Failed 0 ''/d/late.png'',
                  Running 1 ''/d/a.png'', Success 1 ''/d/a.png'']\<rparr>)"
  by (simp add: runBatch_def emptyBatch_def upload_a upload_late onResolved_def)



text \<open>
  Claim C3 says that an empty file list still gets its batch result
  \<open>{results: [], errors: []}\<close> written. The comparison that triggers writing sits in the
  callback of an upload, and with no file there is no upload: the chain completes and
  nothing is written.
\<close>

theorem empty_directory_writes_nothing:
  "listFiles cwd (cfg_directory c) (Dir []) = Inr [] \<and>
   runBatch c w a [] = (Completed, \<lparr>results = [], errors = [], written = [], console = []\<rparr>) \<and>
   directoryMode c w cwd a (Dir []) =
     (Completed, \<lparr>results = [], errors = [], written = [], console = []\<rparr>)"
  by (simp add: directoryMode_def runBatch_def emptyBatch_def)

lemma resolves_Resolved: "resolves c w a f \<longleftrightarrow> (\<exists>d. uploadFile c w f a = Resolved d)"
  by (auto simp: resolves_def resolvedOutcome_def split: completion.splits)

lemma chain_resolved_prefix:
  "list_all (resolves c w a) pre \<Longrightarrow>
   \<exists>b1. chain c w a n idx (pre @ rest) b = chain c w a n (idx + length pre) rest b1 \<and>
        errors b1 = errors b @ filter (\<lambda>d. truthy (o_err d)) (List.map_filter (resolvedOutcome c w a) pre) \<and>
        results b1 = results b @ filter (\<lambda>d. \<not> truthy (o_err d)) (List.map_filter (resolvedOutcome c w a) pre) \<and>
        started (console b1) = started (console b) @ pre"
proof (induction pre arbitrary: idx b)
  case Nil
  have "chain c w a n idx ([] @ rest) b = chain c w a n (idx + length ([] :: string list)) rest b"
    by simp
  then show ?case by (auto simp: List.map_filter_simps)
next
  case (Cons f pre)
  from Cons.prems obtain d where d: "uploadFile c w f a = Resolved d"
    by (auto simp: resolves_Resolved)
  let ?b1 = "onResolved n idx f d (b\<lparr>console := console b @ [Running idx f]\<rparr>)"
  from Cons.prems have "list_all (resolves c w a) pre" by simp
  from Cons.IH [OF this, of "Suc idx" ?b1] obtain b2 where b2:
    "chain c w a n (Suc idx) (pre @ rest) ?b1 = chain c w a n (Suc idx + length pre) rest b2"
    "errors b2 = errors ?b1 @ filter (\<lambda>d. truthy (o_err d)) (List.map_filter (resolvedOutcome c w a) pre)"
    "results b2 = results ?b1 @ filter (\<lambda>d. \<not> truthy (o_err d)) (List.map_filter (resolvedOutcome c w a) pre)"
    "started (console b2) = started (console ?b1) @ pre"
    by blast
  have ro: "resolvedOutcome c w a f = Some d"
    using d by (simp add: resolvedOutcome_def)
  have "chain c w a n idx ((f # pre) @ rest) b = chain c w a n (idx + length (f # pre)) rest b2"
    using d b2(1) by simp
  moreover have "errors b2 = errors b @ filter (\<lambda>d. truthy (o_err d)) (List.map_filter (resolvedOutcome c w a) (f # pre))"
    using b2(2) ro by (simp add: onResolved_errors List.map_filter_simps)
  moreover have "results b2 = results b @ filter (\<lambda>d. \<not> truthy (o_err d)) (List.map_filter (resolvedOutcome c w a) (f # pre))"
    using b2(3) ro by (simp add: onResolved_results List.map_filter_simps)
  moreover have "started (console b2) = started (console b) @ f # pre"
    using b2(4) by (simp add: onResolved_console started_append)
  ultimately show ?case by blast
qed

lemma uploadFile_fatal:
  "\<not> supportedFileExtensions (jsToString (fileExt f)) \<or> \<not> statSync w f \<Longrightarrow>
     uploadFile c w f a = Exit 104"
  by (auto simp: uploadFile_def prepareUpload_def handleError_def Let_def)

lemma batch_all_resolve:
  assumes all: "list_all (resolves c w a) files"
  shows "fst (runBatch c w a files) = Completed"
    and "started (console (snd (runBatch c w a files))) = files"
    and "errors (snd (runBatch c w a files)) =
        filter (\<lambda>d. truthy (o_err d)) (List.map_filter (resolvedOutcome c w a) files)"
    and "results (snd (runBatch c w a files)) =
        filter (\<lambda>d. \<not> truthy (o_err d)) (List.map_filter (resolvedOutcome c w a) files)"
proof -
  from chain_resolved_prefix [OF all, of "length files" 0 "[]" emptyBatch]
  obtain b1 where b1:
    "chain c w a (length files) 0 files emptyBatch = chain c w a (length files) (length files) [] b1"
    "errors b1 = filter (\<lambda>d. truthy (o_err d)) (List.map_filter (resolvedOutcome c w a) files)"
    "results b1 = filter (\<lambda>d. \<not> truthy (o_err d)) (List.map_filter (resolvedOutcome c w a) files)"
    "started (console b1) = files"
    by (auto simp: emptyBatch_def)
  then have run: "runBatch c w a files = (Completed, b1)"
    by (simp add: runBatch_def)
  show "fst (runBatch c w a files) = Completed"
    using run by simp
  show "started (console (snd (runBatch c w a files))) = files"
    using run b1(4) by simp
  show "errors (snd (runBatch c w a files)) =
        filter (\<lambda>d. truthy (o_err d)) (List.map_filter (resolvedOutcome c w a) files)"
    using run b1(2) by simp
  show "results (snd (runBatch c w a files)) =
        filter (\<lambda>d. \<not> truthy (o_err d)) (List.map_filter (resolvedOutcome c w a) files)"
    using run b1(3) by simp
qed

lemma batch_fatal:
  assumes h: "list_all (resolves c w a) pre \<and>
    (\<not> supportedFileExtensions (jsToString (fileExt f)) \<or> \<not> statSync w f)"
  shows "fst (runBatch c w a (pre @ f # post)) = Exited 104"
    and "started (console (snd (runBatch c w a (pre @ f # post)))) = pre @ [f]"
    and "written (snd (runBatch c w a (pre @ f # post))) = []"
    and "errors (snd (runBatch c w a (pre @ f # post))) =
        filter (\<lambda>d. truthy (o_err d)) (List.map_filter (resolvedOutcome c w a) pre)"
    and "results (snd (runBatch c w a (pre @ f # post))) =
        filter (\<lambda>d. \<not> truthy (o_err d)) (List.map_filter (resolvedOutcome c w a) pre)"
proof -
  let ?files = "pre @ f # post"
  from h have all: "list_all (resolves c w a) pre" and ex: "uploadFile c w f a = Exit 104"
    by (simp_all add: uploadFile_fatal)
  from chain_resolved_prefix [OF all, of "length ?files" 0 "f # post" emptyBatch]
  obtain b1 where b1:
    "chain c w a (length ?files) 0 ?files emptyBatch =
       chain c w a (length ?files) (length pre) (f # post) b1"
    "errors b1 = filter (\<lambda>d. truthy (o_err d)) (List.map_filter (resolvedOutcome c w a) pre)"
    "results b1 = filter (\<lambda>d. \<not> truthy (o_err d)) (List.map_filter (resolvedOutcome c w a) pre)"
    "started (console b1) = pre"
    by (auto simp: emptyBatch_def)
  let ?b = "b1\<lparr>console := console b1 @ [Running (length pre) f]\<rparr>"
  have run: "runBatch c w a ?files = (Exited 104, ?b)"
    using b1(1) ex by (simp add: runBatch_def)
  then have ch: "chain c w a (length ?files) 0 ?files emptyBatch = (Exited 104, ?b)"
    by (simp add: runBatch_def)
  have "written ?b = written emptyBatch @ []"
    using chain_written [OF ch] by (simp add: emptyBatch_def)
  then have wr: "written ?b = []"
    by (simp add: emptyBatch_def)
  show "fst (runBatch c w a ?files) = Exited 104"
    using run by simp
  show "started (console (snd (runBatch c w a ?files))) = pre @ [f]"
    using run b1(4) by (simp add: started_append)
  show "written (snd (runBatch c w a ?files)) = []"
    using run wr by simp
  show "errors (snd (runBatch c w a ?files)) =
        filter (\<lambda>d. truthy (o_err d)) (List.map_filter (resolvedOutcome c w a) pre)"
    using run b1(2) by simp
  show "results (snd (runBatch c w a ?files)) =
        filter (\<lambda>d. \<not> truthy (o_err d)) (List.map_filter (resolvedOutcome c w a) pre)"
    using run b1(3) by simp
qed

lemma service_response_resolves:
  "prepareUpload c w f a = Inr req \<Longrightarrow> request w req = (Null, body) \<Longrightarrow>
   body \<noteq> Undefined \<Longrightarrow> body \<noteq> Null \<Longrightarrow>
     uploadFile c w f a =
       Resolved \<lparr>o_action = a, o_file = f, o_status = getProp body ''status'',
                 o_statusCode = getProp body ''statusCode'',
                 o_result = getProp body ''result'', o_err = Null\<rparr>"
  by (simp add: uploadFile_def requestCallback_def)

lemma upload_b:
  "uploadFile exampleConfig exampleWorld ''/d/b.png'' ''readKYC'' =
     Resolved \<lparr>o_action = ''readKYC'', o_file = ''/d/b.png'', o_status = JStr ''success'',
               o_statusCode = JStr ''200'', o_result = JArr [], o_err = Null\<rparr>"
  by (simp add: example_defs)

lemma scan_bmp_unsupported:
  "\<not> supportedFileExtensions (jsToString (fileExt ''/d/scan.bmp''))"
  by (simp add: example_defs)

lemma upload_scan_bmp:
  "uploadFile exampleConfig exampleWorld ''/d/scan.bmp'' ''readKYC'' = Exit 104"
  by (simp add: example_defs)

text \<open>
  Claim C4, as amended. In batch mode a non-success service response is not fatal: a
  response with a body and no transport error resolves the upload with \<open>err\<close> not set,
  whatever the body says. Every outcome that an upload resolves with is recorded, in
  \<open>results\<close> when its \<open>err\<close> is not set (so there for such a response) and in \<open>errors\<close> when it
  is, and the batch goes on: when every upload resolves, the run completes and every
  file of the list has been attempted, in order. An unsupported extension at upload time
  and a file on which \<open>fs.statSync\<close> throws are fatal in batch mode too: \<open>handleError\<close> ends
  the process at that file with exit code 104, nothing is recorded for it, the files
  after it are not attempted and no batch result is written.
\<close>

theorem per_item_outcomes:
  "(prepareUpload c w g a = Inr req \<and> request w req = (Null, body) \<and>
    body \<noteq> Undefined \<and> body \<noteq> Null \<longrightarrow>
      resolves c w a g \<and>
      resolvedOutcome c w a g =
        Some \<lparr>o_action = a, o_file = g, o_status = getProp body ''status'',
              o_statusCode = getProp body ''statusCode'',
              o_result = getProp body ''result'', o_err = Null\<rparr>) \<and>
   (list_all (resolves c w a) files \<longrightarrow>
      fst (runBatch c w a files) = Completed \<and>
      started (console (snd (runBatch c w a files))) = files \<and>
      errors (snd (runBatch c w a files)) =
        filter (\<lambda>d. truthy (o_err d)) (List.map_filter (resolvedOutcome c w a) files) \<and>
      results (snd (runBatch c w a files)) =
        filter (\<lambda>d. \<not> truthy (o_err d)) (List.map_filter (resolvedOutcome c w a) files)) \<and>
   (list_all (resolves c w a) pre \<and>
    (\<not> supportedFileExtensions (jsToString (fileExt f)) \<or> \<not> statSync w f) \<longrightarrow>
      fst (runBatch c w a (pre @ f # post)) = Exited 104 \<and>
      started (console (snd (runBatch c w a (pre @ f # post)))) = pre @ [f] \<and>
      written (snd (runBatch c w a (pre @ f # post))) = [] \<and>
      errors (snd (runBatch c w a (pre @ f # post))) =
        filter (\<lambda>d. truthy (o_err d)) (List.map_filter (resolvedOutcome c w a) pre) \<and>
      results (snd (runBatch c w a (pre @ f # post))) =
        filter (\<lambda>d. \<not> truthy (o_err d)) (List.map_filter (resolvedOutcome c w a) pre))"
proof (intro conjI impI)
  assume s: "prepareUpload c w g a = Inr req \<and> request w req = (Null, body) \<and>
    body \<noteq> Undefined \<and> body \<noteq> Null"
  then have up: "uploadFile c w g a =
       Resolved \<lparr>o_action = a, o_file = g, o_status = getProp body ''status'',
                 o_statusCode = getProp body ''statusCode'',
                 o_result = getProp body ''result'', o_err = Null\<rparr>"
    by (simp add: service_response_resolves)
  then show "resolves c w a g"
    by (simp add: resolves_Resolved)
  from up show "resolvedOutcome c w a g =
        Some \<lparr>o_action = a, o_file = g, o_status = getProp body ''status'',
              o_statusCode = getProp body ''statusCode'',
              o_result = getProp body ''result'', o_err = Null\<rparr>"
    by (simp add: resolvedOutcome_def)
next
  assume all: "list_all (resolves c w a) files"
  show "fst (runBatch c w a files) = Completed"
    by (rule batch_all_resolve(1) [OF all])
  show "started (console (snd (runBatch c w a files))) = files"
    by (rule batch_all_resolve(2) [OF all])
  show "errors (snd (runBatch c w a files)) =
        filter (\<lambda>d. truthy (o_err d)) (List.map_filter (resolvedOutcome c w a) files)"
    by (rule batch_all_resolve(3) [OF all])
  show "results (snd (runBatch c w a files)) =
        filter (\<lambda>d. \<not> truthy (o_err d)) (List.map_filter (resolvedOutcome c w a) files)"
    by (rule batch_all_resolve(4) [OF all])
next
  assume h: "list_all (resolves c w a) pre \<and>
    (\<not> supportedFileExtensions (jsToString (fileExt f)) \<or> \<not> statSync w f)"
  show "fst (runBatch c w a (pre @ f # post)) = Exited 104"
    by (rule batch_fatal(1) [OF h])
  show "started (console (snd (runBatch c w a (pre @ f # post)))) = pre @ [f]"
    by (rule batch_fatal(2) [OF h])
  show "written (snd (runBatch c w a (pre @ f # post))) = []"
    by (rule batch_fatal(3) [OF h])
  show "errors (snd (runBatch c w a (pre @ f # post))) =
        filter (\<lambda>d. truthy (o_err d)) (List.map_filter (resolvedOutcome c w a) pre)"
    by (rule batch_fatal(4) [OF h])
  show "results (snd (runBatch c w a (pre @ f # post))) =
        filter (\<lambda>d. \<not> truthy (o_err d)) (List.map_filter (resolvedOutcome c w a) pre)"
    by (rule batch_fatal(5) [OF h])
qed

text \<open>
  The theorem on the service's refusal of \<open>/d/blurred.png\<close>; on a list of two uploads that
  resolve, the refused one among them; on a list whose second file is gone; and on a list
  whose first file has an extension that is not supported. Every reply used is one the
  library gives.
\<close>

theorem per_item_outcomes_witness:
  "resolvedOutcome exampleConfig exampleWorld ''readKYC'' ''/d/blurred.png'' =
     Some \<lparr>o_action = ''readKYC'', o_file = ''/d/blurred.png'', o_status = JStr ''failure'',
           o_statusCode = JStr ''422'', o_result = Undefined, o_err = Null\<rparr> \<and>
   list_all (resolves exampleConfig exampleWorld ''readKYC'') [''/d/a.png'', ''/d/blurred.png''] \<and>
   fst (runBatch exampleConfig exampleWorld ''readKYC'' [''/d/a.png'', ''/d/blurred.png'']) = Completed \<and>
   started (console (snd (runBatch exampleConfig exampleWorld ''readKYC''
       [''/d/a.png'', ''/d/blurred.png'']))) = [''/d/a.png'', ''/d/blurred.png''] \<and>
   map o_file (errors (snd (runBatch exampleConfig exampleWorld ''readKYC''
       [''/d/a.png'', ''/d/blurred.png'']))) = [] \<and>
   map o_file (results (snd (runBatch exampleConfig exampleWorld ''readKYC''
       [''/d/a.png'', ''/d/blurred.png'']))) = [''/d/a.png'', ''/d/blurred.png''] \<and>
   \<not> statSync exampleWorld ''/d/gone.png'' \<and>
   fst (runBatch exampleConfig exampleWorld ''readKYC''
       [''/d/blurred.png'', ''/d/gone.png'', ''/d/b.png'']) = Exited 104 \<and>
   started (console (snd (runBatch exampleConfig exampleWorld ''readKYC''
       [''/d/blurred.png'', ''/d/gone.png'', ''/d/b.png'']))) = [''/d/blurred.png'', ''/d/gone.png''] \<and>
   written (snd (runBatch exampleConfig exampleWorld ''readKYC''
       [''/d/blurred.png'', ''/d/gone.png'', ''/d/b.png''])) = [] \<and>
   \<not> supportedFileExtensions (jsToString (fileExt ''/d/scan.bmp'')) \<and>
   fst (runBatch exampleConfig exampleWorld ''readKYC'' [''/d/scan.bmp'', ''/d/b.png'']) = Exited 104 \<and>
   started (console (snd (runBatch exampleConfig exampleWorld ''readKYC''
       [''/d/scan.bmp'', ''/d/b.png'']))) = [''/d/scan.bmp'']"
proof -
  let ?c = exampleConfig and ?w = exampleWorld and ?a = "''readKYC''"
  let ?files = "[''/d/a.png'', ''/d/blurred.png'']"
  let ?req = "\<lparr>url = ''https://ind-docs.hyperverge.co/v2.0/readKYC'', httpMethod = ''POST'',
      formField = ''png'', formFile = ''/d/blurred.png'',
      headers = [(''appid'', ''id4567''), (''appkey'', ''key123''),
                 (''Accept'', ''application/json'')]\<rparr>"
  let ?body = "JObj [(''status'', JStr ''failure''), (''statusCode'', JStr ''422'')]"
  have svc: "prepareUpload ?c ?w ''/d/blurred.png'' ?a = Inr ?req \<and>
      request ?w ?req = (Null, ?body) \<and> ?body \<noteq> Undefined \<and> ?body \<noteq> Null"
    by (simp add: request_blurred reply_blurred)
  have all: "list_all (resolves ?c ?w ?a) ?files"
    by (simp add: resolves_Resolved upload_a upload_blurred)
  have pre: "list_all (resolves ?c ?w ?a) [''/d/blurred.png'']"
    by (simp add: resolves_Resolved upload_blurred)
  have none: "list_all (resolves ?c ?w ?a) []"
    by simp
  have gone: "\<not> statSync ?w ''/d/gone.png''"
    by (simp add: exampleWorld_def)
  note bmp = scan_bmp_unsupported
  note t = per_item_outcomes [of ?c ?w "''/d/blurred.png''" ?a ?req ?body ?files
      "[''/d/blurred.png'']" "''/d/gone.png''" "[''/d/b.png'']"]
  note u = per_item_outcomes [of ?c ?w "''/d/blurred.png''" ?a ?req ?body ?files
      "[]" "''/d/scan.bmp''" "[''/d/b.png'']"]
  from t svc have 0: "resolvedOutcome ?c ?w ?a ''/d/blurred.png'' =
      Some \<lparr>o_action = ?a, o_file = ''/d/blurred.png'', o_status = getProp ?body ''status'',
            o_statusCode = getProp ?body ''statusCode'',
            o_result = getProp ?body ''result'', o_err = Null\<rparr>"
    by blast
  from t all have 1:
    "fst (runBatch ?c ?w ?a ?files) = Completed"
    "started (console (snd (runBatch ?c ?w ?a ?files))) = ?files"
    "errors (snd (runBatch ?c ?w ?a ?files)) =
        filter (\<lambda>d. truthy (o_err d)) (List.map_filter (resolvedOutcome ?c ?w ?a) ?files)"
    "results (snd (runBatch ?c ?w ?a ?files)) =
        filter (\<lambda>d. \<not> truthy (o_err d)) (List.map_filter (resolvedOutcome ?c ?w ?a) ?files)"
    by blast+
  have 2: "map o_file (errors (snd (runBatch ?c ?w ?a ?files))) = []"
    unfolding 1(3)
    by (simp add: List.map_filter_simps resolvedOutcome_def upload_a upload_blurred)
  have 3: "map o_file (results (snd (runBatch ?c ?w ?a ?files))) = ?files"
    unfolding 1(4)
    by (simp add: List.map_filter_simps resolvedOutcome_def upload_a upload_blurred)
  from t pre gone have 4:
    "fst (runBatch ?c ?w ?a ([''/d/blurred.png''] @ ''/d/gone.png'' # [''/d/b.png''])) = Exited 104"
    "started (console (snd (runBatch ?c ?w ?a
       ([''/d/blurred.png''] @ ''/d/gone.png'' # [''/d/b.png''])))) = [''/d/blurred.png''] @ [''/d/gone.png'']"
    "written (snd (runBatch ?c ?w ?a ([''/d/blurred.png''] @ ''/d/gone.png'' # [''/d/b.png'']))) = []"
    by blast+
  from u none bmp have 5:
    "fst (runBatch ?c ?w ?a ([] @ ''/d/scan.bmp'' # [''/d/b.png''])) = Exited 104"
    "started (console (snd (runBatch ?c ?w ?a ([] @ ''/d/scan.bmp'' # [''/d/b.png''])))) =
       [] @ [''/d/scan.bmp'']"
    by blast+
  from 0 all 1(1,2) 2 3 gone 4 bmp 5 show ?thesis by simp
qed

text \<open>
  Claim C4 as the specification states it fails. The service's refusal of
  \<open>/d/blurred.png\<close> is recorded in \<open>results\<close>, not in \<open>errors\<close>; at the file that is gone
  the process exits with code 104, nothing is recorded for it and the file after it is
  never attempted. An extension that is not supported ends the batch in the same way.
\<close>

theorem failing_items_not_in_errors:
  "runBatch exampleConfig exampleWorld ''readKYC'' [''/d/blurred.png'', ''/d/gone.png'', ''/d/b.png''] =
     (Exited 104,
      \<lparr>results = [\<lparr>o_action = ''readKYC'', o_file = ''/d/blurred.png'',
                    o_status = JStr ''failure'', o_statusCode = JStr ''422'',
                    o_result = Undefined, o_err = Null\<rparr>],
       errors = [], written = [],
       console = [Running 0 ''/d/blurred.png'', Success 0 ''/d/blurred.png'',
                  Running 1 ''/d/gone.png'']\<rparr>) \<and>
   runBatch exampleConfig exampleWorld ''readKYC'' [''/d/scan.bmp'', ''/d/b.png''] =
     (Exited 104,
      \<lparr>results = [], errors = [], written = [], console = [Running 0 ''/d/scan.bmp'']\<rparr>)"
  by (simp add: runBatch_def emptyBatch_def upload_blurred upload_gone upload_scan_bmp
      onResolved_def)

lemma snoc_eq_split:
  "es @ [x] = pre @ y # post \<longleftrightarrow>
     (post = [] \<and> pre = es \<and> x = y) \<or> (\<exists>post'. post = post' @ [x] \<and> es = pre @ y # post')"
  by (cases post rule: rev_cases) auto

lemma serial_snoc_running:
  assumes "\<forall>pre i g post. es = pre @ Running (Suc i) g # post \<longrightarrow>
             (\<exists>h. Failed i h \<in> set pre \<or> Success i h \<in> set pre)"
    and "\<forall>i. idx = Suc i \<longrightarrow> (\<exists>h. Failed i h \<in> set es \<or> Success i h \<in> set es)"
  shows "\<forall>pre i g post. es @ [Running idx f] = pre @ Running (Suc i) g # post \<longrightarrow>
             (\<exists>h. Failed i h \<in> set pre \<or> Success i h \<in> set pre)"
  using assms by (auto simp: snoc_eq_split)

lemma serial_snoc_verdict:
  assumes "\<forall>pre i g post. es = pre @ Running (Suc i) g # post \<longrightarrow>
             (\<exists>h. Failed i h \<in> set pre \<or> Success i h \<in> set pre)"
    and "\<forall>j g. v \<noteq> Running j g"
  shows "\<forall>pre i g post. es @ [v] = pre @ Running (Suc i) g # post \<longrightarrow>
             (\<exists>h. Failed i h \<in> set pre \<or> Success i h \<in> set pre)"
  using assms by (auto simp: snoc_eq_split)

lemma chain_console_tags:
  "chain c w a n idx fs b = (e, b') \<Longrightarrow> files = seen @ fs \<Longrightarrow> idx = length seen \<Longrightarrow>
   (\<forall>j g. Running j g \<in> set (console b) \<longrightarrow> j < length files \<and> g = files ! j) \<Longrightarrow>
   Running j g \<in> set (console b') \<Longrightarrow> j < length files \<and> g = files ! j"
proof (induction fs arbitrary: idx b seen)
  case Nil
  then show ?case by auto
next
  case (Cons f fs)
  let ?b0 = "b\<lparr>console := console b @ [Running idx f]\<rparr>"
  have here: "idx < length files" "files ! idx = f"
    using Cons.prems(2,3) by auto
  show ?case
  proof (cases "uploadFile c w f a")
    case (Resolved d)
    let ?b1 = "onResolved n idx f d ?b0"
    from Resolved Cons.prems(1) have run: "chain c w a n (Suc idx) fs ?b1 = (e, b')"
      by simp
    have split: "files = (seen @ [f]) @ fs" "Suc idx = length (seen @ [f])"
      using Cons.prems(2,3) by auto
    have inv: "\<forall>j g. Running j g \<in> set (console ?b1) \<longrightarrow> j < length files \<and> g = files ! j"
      using Cons.prems(4) here by (auto simp: onResolved_console)
    from Cons.IH [OF run split inv Cons.prems(5)] show ?thesis .
  next
    case (Exit code)
    with Cons.prems here show ?thesis by auto
  next
    case Uncaught
    with Cons.prems here show ?thesis by auto
  qed
qed

lemma chain_console_serial:
  "chain c w a n idx fs b = (e, b') \<Longrightarrow>
   (\<forall>pre i g post. console b = pre @ Running (Suc i) g # post \<longrightarrow>
       (\<exists>h. Failed i h \<in> set pre \<or> Success i h \<in> set pre)) \<Longrightarrow>
   (\<forall>i. idx = Suc i \<longrightarrow> (\<exists>h. Failed i h \<in> set (console b) \<or> Success i h \<in> set (console b))) \<Longrightarrow>
   console b' = pre @ Running (Suc i) g # post \<Longrightarrow>
   \<exists>h. Failed i h \<in> set pre \<or> Success i h \<in> set pre"
proof (induction fs arbitrary: idx b)
  case Nil
  then show ?case by auto
next
  case (Cons f fs)
  let ?b0 = "b\<lparr>console := console b @ [Running idx f]\<rparr>"
  have inv0: "\<forall>pre i g post. console ?b0 = pre @ Running (Suc i) g # post \<longrightarrow>
       (\<exists>h. Failed i h \<in> set pre \<or> Success i h \<in> set pre)"
    using serial_snoc_running [OF Cons.prems(2,3)] by simp
  show ?case
  proof (cases "uploadFile c w f a")
    case (Resolved d)
    let ?b1 = "onResolved n idx f d ?b0"
    from Resolved Cons.prems(1) have run: "chain c w a n (Suc idx) fs ?b1 = (e, b')"
      by simp
    have c1: "console ?b1 = console ?b0 @ [if truthy (o_err d) then Failed idx f else Success idx f]"
      by (simp add: onResolved_console)
    have inv1: "\<forall>pre i g post. console ?b1 = pre @ Running (Suc i) g # post \<longrightarrow>
       (\<exists>h. Failed i h \<in> set pre \<or> Success i h \<in> set pre)"
      unfolding c1 by (rule serial_snoc_verdict [OF inv0]) simp
    have last1: "\<forall>i. Suc idx = Suc i \<longrightarrow>
        (\<exists>h. Failed i h \<in> set (console ?b1) \<or> Success i h \<in> set (console ?b1))"
      unfolding c1 by auto
    from Cons.IH [OF run inv1 last1 Cons.prems(4)] show ?thesis .
  next
    case (Exit code)
    with Cons.prems(1) have "b' = ?b0" by simp
    with inv0 Cons.prems(4) show ?thesis by blast
  next
    case Uncaught
    with Cons.prems(1) have "b' = ?b0" by simp
    with inv0 Cons.prems(4) show ?thesis by blast
  qed
qed

lemma chain_console_verdict_tags:
  "chain c w a n idx fs b = (e, b') \<Longrightarrow> files = seen @ fs \<Longrightarrow> idx = length seen \<Longrightarrow>
   (\<forall>j g. Failed j g \<in> set (console b) \<or> Success j g \<in> set (console b) \<longrightarrow> g = files ! j) \<Longrightarrow>
   Failed j g \<in> set (console b') \<or> Success j g \<in> set (console b') \<Longrightarrow> g = files ! j"
proof (induction fs arbitrary: idx b seen)
  case Nil
  then show ?case by auto
next
  case (Cons f fs)
  let ?b0 = "b\<lparr>console := console b @ [Running idx f]\<rparr>"
  have here: "files ! idx = f"
    using Cons.prems(2,3) by auto
  show ?case
  proof (cases "uploadFile c w f a")
    case (Resolved d)
    let ?b1 = "onResolved n idx f d ?b0"
    from Resolved Cons.prems(1) have run: "chain c w a n (Suc idx) fs ?b1 = (e, b')"
      by simp
    have split: "files = (seen @ [f]) @ fs" "Suc idx = length (seen @ [f])"
      using Cons.prems(2,3) by auto
    have inv: "\<forall>j g. Failed j g \<in> set (console ?b1) \<or> Success j g \<in> set (console ?b1) \<longrightarrow> g = files ! j"
      using Cons.prems(4) here by (auto simp: onResolved_console)
    from Cons.IH [OF run split inv Cons.prems(5)] show ?thesis .
  next
    case (Exit code)
    with Cons.prems show ?thesis by auto
  next
    case Uncaught
    with Cons.prems show ?thesis by auto
  qed
qed

text \<open>
  Claim C5. Uploads run one after the other in the order of the list: wherever the
  console shows the upload at position \<open>i + 1\<close> starting, that upload is the one of the
  file at position \<open>i + 1\<close>, and the line reporting the upload of the file at position \<open>i\<close>
  as failed or succeeded, printed when that upload resolved, stands before it.
\<close>

theorem uploads_run_serially:
  "runBatch c w a files = (e, b) \<Longrightarrow> console b = pre @ Running (Suc i) f # post \<Longrightarrow>
     Suc i < length files \<and> f = files ! Suc i \<and>
     (Failed i (files ! i) \<in> set pre \<or> Success i (files ! i) \<in> set pre)"
proof -
  assume run: "runBatch c w a files = (e, b)" and at: "console b = pre @ Running (Suc i) f # post"
  from run have ch: "chain c w a (length files) 0 files emptyBatch = (e, b)"
    by (simp add: runBatch_def)
  have mem: "Running (Suc i) f \<in> set (console b)"
    using at by simp
  have tag: "Suc i < length files \<and> f = files ! Suc i"
    by (rule chain_console_tags [OF ch _ _ _ mem, where seen = "[]"]) (simp_all add: emptyBatch_def)
  have "\<exists>h. Failed i h \<in> set pre \<or> Success i h \<in> set pre"
    by (rule chain_console_serial [OF ch _ _ at]) (simp_all add: emptyBatch_def)
  then obtain h where h: "Failed i h \<in> set pre \<or> Success i h \<in> set pre" ..
  then have "Failed i h \<in> set (console b) \<or> Success i h \<in> set (console b)"
    using at by auto
  then have "h = files ! i"
    by (rule chain_console_verdict_tags [OF ch, where seen = "[]", rotated 3]) (simp_all add: emptyBatch_def)
  with h tag show ?thesis by simp
qed

text \<open>The theorem on the run over two files.\<close>

theorem uploads_run_serially_witness:
  "console (snd (runBatch exampleConfig exampleWorld ''readKYC'' [''/d/late.png'', ''/d/a.png''])) =
     [Running 0 ''/d/late.png'', Failed 0 ''/d/late.png''] @
       Running (Suc 0) ''/d/a.png'' # [Success 1 ''/d/a.png''] \<and>
   Suc 0 < length [''/d/late.png'', ''/d/a.png''] \<and>
   ''/d/a.png'' = [''/d/late.png'', ''/d/a.png''] ! Suc 0 \<and>
   (Failed 0 ([''/d/late.png'', ''/d/a.png''] ! 0) \<in> set [Running 0 ''/d/late.png'', Failed 0 ''/d/late.png''] \<or>
    Success 0 ([''/d/late.png'', ''/d/a.png''] ! 0) \<in> set [Running 0 ''/d/late.png'', Failed 0 ''/d/late.png''])"
proof -
  let ?files = "[''/d/late.png'', ''/d/a.png'']"
  let ?run = "runBatch exampleConfig exampleWorld ''readKYC'' ?files"
  have run: "?run = (fst ?run, snd ?run)" by simp
  have at: "console (snd ?run) =
     [Running 0 ''/d/late.png'', Failed 0 ''/d/late.png''] @
       Running (Suc 0) ''/d/a.png'' # [Success 1 ''/d/a.png'']"
    by (simp add: run_late_a)
  from at uploads_run_serially [OF run at] show ?thesis by blast
qed

end
